theory Spec2Isabelle
  imports Main "HOL-Library.AList"
begin

section \<open>Wire data (src/types/auth.type.ts, src/types/user.type.ts)\<close>

record TokenRecord =
  token :: string
  validUntil :: string

record Wallet =
  eth_address :: string

record User =
  id :: int
  wallet :: "Wallet option"

record AuthDiscordCredentials =
  cred_code :: string
  cred_roomId :: "string option"

text \<open>
  The body of a fulfilled response. The call sites type it as \<open>AuthTokens\<close>
  (\<open>Record<'access' | 'refresh', TokenRecord>\<close>), \<open>TokenRecord\<close> or
  \<open>UserWithWallet\<close>; \<open>NoContent\<close> is the empty body (the empty string in
  JavaScript, which is falsy and whose properties all read as \<open>undefined\<close>).
\<close>

datatype data =
    NoContent
  | AuthTokensD TokenRecord TokenRecord
  | TokenRecordD TokenRecord
  | UserD User

section \<open>The HTTP collaborator\<close>

text \<open>
  The HTTP library that \<open>web3.ts\<close> imports (axios) is outside the repository. The
  model takes from it what follows.
  \<^item> \<open>interceptors.request.use(f)\<close> appends \<open>f\<close> to the handlers of the manager
    and returns its index; \<open>eject(id)\<close> clears the slot \<open>id\<close>.
  \<^item> A request first runs the request interceptors that are not ejected, in the reverse
    of the order of their registration, each on the configuration the one before it
    returned; \<open>headers.set(name, value)\<close> replaces the value of the header.
  \<^item> The configuration is then dispatched. The dispatch fulfils with a response, or
    rejects with an error whose \<open>config\<close> is the configuration dispatched and whose
    \<open>response\<close> is the response received, if any.
  \<^item> The two handlers of the response interceptor are attached to the dispatch as by
    \<open>then\<close>: a response goes to the first, a rejection to the second, and what the
    handler returns fulfils the promise that the caller of \<open>request\<close>, \<open>get\<close> or
    \<open>post\<close> holds.
\<close>

datatype http_verb = GET | POST

datatype body = NoBody | CredentialsBody AuthDiscordCredentials

text \<open>A request configuration: verb, url, the one \<open>Authorization\<close> header, body.\<close>

record AxiosRequestConfig =
  http_method :: http_verb
  url :: string
  authorization :: "string option"
  payload :: body

record response =
  status :: nat
  rdata :: data

text \<open>
  What the transport does with a dispatched request: it fulfils with a response, or it
  rejects with an error that carries the response when one was received
  (\<open>error.response\<close>) and none for a network failure.
\<close>

datatype outcome = Ok response | Fail "response option"

text \<open>The error object of a rejected dispatch: \<open>error.response\<close>, \<open>error.config\<close>.\<close>

record axios_error =
  err_response :: "response option"
  err_config :: AxiosRequestConfig

text \<open>
  What a settled \<open>_client.request\<close> hands to its caller: a response, or (from the
  rejected handler of the response interceptor, which returns it) the error object.
\<close>

datatype rvalue = RespV response | ErrV axios_error

text \<open>Values thrown by the client's own code.\<close>

datatype thrown = Error string | TypeError

datatype 'a settled = Rejected thrown | Fulfilled 'a

text \<open>
  The remote service: its answer to a request may depend on the requests it has
  received before.
\<close>

type_synonym transport = "AxiosRequestConfig list \<Rightarrow> AxiosRequestConfig \<Rightarrow> outcome"

section \<open>Events (src/types/instance.type.ts, events/emitter)\<close>

datatype TookeyWeb3EventKey = Login | Logout

datatype event_payload = PNull | PValue string

text \<open>
  A handler registered on the emitter: the closure that \<open>useCredentials\<close> registers
  (it ejects the request interceptor with the given id), or a handler of an external
  subscriber, named by a number.
\<close>

datatype handler = EjectInterceptor nat | Subscriber nat

section \<open>The client (src/web3.ts, class TookeyWeb3)\<close>

text \<open>
  The fields of the class, the two interceptor managers' contents, the emitter's
  handlers, and logs of what the client did to the outside: requests dispatched, events
  emitted, handler invocations of external subscribers, \<open>console.error\<close> calls.

  \<open>interceptors\<close> is the handler array of \<open>_client.interceptors.request\<close>: entry
  \<open>i\<close> is \<open>Some t\<close> for the access-token interceptor that closes over
  \<open>accessToken = t\<close> and \<open>None\<close> once ejected. An absent (\<open>undefined\<close>) string
  is \<open>None\<close>.
\<close>

record client =
  baseURL_field :: "string option"
  user_field :: "data option"
  userRefreshToken :: "string option"
  interceptors :: "string option option list"
  handlers :: "(TookeyWeb3EventKey \<times> handler) list"
  sent :: "AxiosRequestConfig list"
  events :: "(TookeyWeb3EventKey \<times> event_payload) list"
  delivered :: "(nat \<times> TookeyWeb3EventKey \<times> event_payload) list"
  console :: "thrown list"

text \<open>JavaScript truthiness of an optional string, and of the stored user.\<close>

definition truthy :: "string option \<Rightarrow> bool" where
  "truthy t = (case t of None \<Rightarrow> False | Some s \<Rightarrow> s \<noteq> [])"

definition truthy_data :: "data option \<Rightarrow> bool" where
  "truthy_data d = (case d of None \<Rightarrow> False | Some NoContent \<Rightarrow> False | Some _ \<Rightarrow> True)"

definition isLoggedIn :: "client \<Rightarrow> bool" where
  "isLoggedIn s = (truthy_data (user_field s) \<and> truthy (userRefreshToken s))"

text \<open>A JavaScript value as far as \<open>typeof\<close> tells values apart.\<close>

datatype jsval = JUndefined | JNull | JBoolean bool | JNumber int | JString string

text \<open>
  \<open>clientOptionsSchema.validate\<close> (validators) on the option \<open>baseURL\<close>:
  \<open>joi.string().optional()\<close> accepts an absent value and a string that is not empty,
  and fails on everything else with the error given to \<open>.error\<close>.
\<close>

definition clientOptionsSchema :: "jsval \<Rightarrow> thrown + string option" where
  "clientOptionsSchema baseURL =
     (case baseURL of
        JUndefined \<Rightarrow> Inr None
      | JString b \<Rightarrow>
          if b = [] then Inl (Error ''`baseURL` should be a string.'') else Inr (Some b)
      | _ \<Rightarrow> Inl (Error ''`baseURL` should be a string.''))"

text \<open>
  The constructor (lines 18 to 44): it throws the error of the validation, or gives a
  client with the base URL and with nothing stored.
\<close>

definition constructor :: "jsval \<Rightarrow> thrown + client" where
  "constructor baseURL =
     (case clientOptionsSchema baseURL of
        Inl e \<Rightarrow> Inl e
      | Inr b \<Rightarrow>
          Inr \<lparr>baseURL_field = b, user_field = None, userRefreshToken = None,
               interceptors = [], handlers = [], sent = [], events = [], delivered = [],
               console = []\<rparr>)"

subsection \<open>The emitter\<close>

text \<open>
  Modelled from the spec: the module \<open>./events/emitter\<close> is not among the sources.
  Section 4.4: "Subscribers register a handler for a kind; the Session Manager
  publishes"; an emitted event is "observable by any external subscriber". \<open>on_event\<close>
  registers a handler for a kind; \<open>emit\<close> runs the handlers registered for the kind,
  in the order of their registration. The handler of a subscriber returns normally; the
  model records that it ran. One client is modelled: the handlers are its own.
\<close>

definition on_event :: "client \<Rightarrow> TookeyWeb3EventKey \<Rightarrow> handler \<Rightarrow> client" where
  "on_event s k h = s\<lparr>handlers := handlers s @ [(k, h)]\<rparr>"

text \<open>\<open>interceptors.request.eject(id)\<close>: the slot is cleared, the ids of the others stay.\<close>

definition eject :: "nat \<Rightarrow> string option option list \<Rightarrow> string option option list" where
  "eject i hs = (if i < length hs then hs[i := None] else hs)"

text \<open>
  Modelled from the spec: what the emitter of \<open>./events/emitter\<close> does with one
  registered handler when an event of its kind is published. The closure of
  \<open>useCredentials\<close> (lines 85 to 87) ejects its interceptor.
\<close>

definition run_handler ::
  "TookeyWeb3EventKey \<Rightarrow> event_payload \<Rightarrow> client \<Rightarrow> handler \<Rightarrow> client" where
  "run_handler k p s h =
     (case h of
        EjectInterceptor i \<Rightarrow> s\<lparr>interceptors := eject i (interceptors s)\<rparr>
      | Subscriber n \<Rightarrow> s\<lparr>delivered := delivered s @ [(n, k, p)]\<rparr>)"

text \<open>
  Modelled from the spec: \<open>emitter.emit\<close> of \<open>./events/emitter\<close>, to which the
  method \<open>emit\<close> of the class passes its arguments (lines 71 to 73).
\<close>

definition emit :: "client \<Rightarrow> TookeyWeb3EventKey \<Rightarrow> event_payload \<Rightarrow> client" where
  "emit s k p =
     foldl (run_handler k p) (s\<lparr>events := events s @ [(k, p)]\<rparr>)
       (map snd (filter (\<lambda>(k', h). k' = k) (handlers s)))"

subsection \<open>useCredentials\<close>

text \<open>
  The access-token interceptor: \<open>if (accessToken) config.headers.set('Authorization',
  `Bearer ${accessToken}`)\<close>; \<open>set\<close> replaces the header's value.
\<close>

definition accessTokenInterceptor :: "string option \<Rightarrow> AxiosRequestConfig \<Rightarrow> AxiosRequestConfig" where
  "accessTokenInterceptor accessToken config =
     (case accessToken of
        None \<Rightarrow> config
      | Some t \<Rightarrow> if t \<noteq> [] then config\<lparr>authorization := Some (''Bearer '' @ t)\<rparr> else config)"

text \<open>
  \<open>interceptors.request.use\<close> appends the interceptor and returns its index; the
  handler registered for \<open>logout\<close> ejects that index.
\<close>

definition useCredentials :: "client \<Rightarrow> string option \<Rightarrow> client" where
  "useCredentials s accessToken =
     (let apiCredentialsInterceptorId = length (interceptors s);
          s1 = s\<lparr>interceptors := interceptors s @ [Some accessToken]\<rparr>
      in on_event s1 Logout (EjectInterceptor apiCredentialsInterceptorId))"

subsection \<open>Sending a request through the client\<close>

text \<open>
  The request interceptors run before the dispatch. The library builds the chain by
  putting each registered interceptor in front of those registered before it, so the one
  registered last runs first and the one registered first runs last; ejected slots are
  skipped. All of them being access-token interceptors, the header that is dispatched is
  the one set by the interceptor that runs last.
\<close>

definition runRequestInterceptors :: "string option option list \<Rightarrow> AxiosRequestConfig \<Rightarrow> AxiosRequestConfig" where
  "runRequestInterceptors hs config =
     foldl (\<lambda>c h. case h of None \<Rightarrow> c | Some t \<Rightarrow> accessTokenInterceptor t c) config (rev hs)"

definition is401 :: "axios_error \<Rightarrow> bool" where
  "is401 e = (case err_response e of None \<Rightarrow> False | Some r \<Rightarrow> status r = 401)"

definition refreshRequest :: "string \<Rightarrow> AxiosRequestConfig" where
  "refreshRequest t =
     \<lparr>http_method = POST, url = ''/api/auth/refresh'',
      authorization = Some (''Bearer '' @ t), payload = NoBody\<rparr>"

definition usersMeRequest :: AxiosRequestConfig where
  "usersMeRequest =
     \<lparr>http_method = GET, url = ''/api/users/me'', authorization = None, payload = NoBody\<rparr>"

definition logoutRequest :: AxiosRequestConfig where
  "logoutRequest =
     \<lparr>http_method = POST, url = ''/api/auth/logout'', authorization = None, payload = NoBody\<rparr>"

definition discordRequest :: "AuthDiscordCredentials \<Rightarrow> AxiosRequestConfig" where
  "discordRequest credentials =
     \<lparr>http_method = POST, url = ''/api/auth/discord'', authorization = None,
      payload = CredentialsBody credentials\<rparr>"

text \<open>\<open>response.data\<close> of a settled request: the error object has no such property.\<close>

definition data_of :: "rvalue \<Rightarrow> data option" where
  "data_of v = (case v of RespV r \<Rightarrow> Some (rdata r) | ErrV e \<Rightarrow> None)"

text \<open>
  \<open>response.data.token\<close> where the refresh endpoint's body is typed \<open>TokenRecord\<close>:
  a body of another shape has no such property and the read gives \<open>undefined\<close>.
\<close>

definition dataToken :: "data \<Rightarrow> string option" where
  "dataToken d = (case d of TokenRecordD t \<Rightarrow> Some (token t) | _ \<Rightarrow> None)"

text \<open>
  \<open>request\<close> is \<open>_client.request\<close> with the interceptors of the constructor;
  \<open>onRejected\<close> is the rejected handler of the response interceptor (lines 28 to 40);
  \<open>refreshToken\<close> and \<open>fetchUser\<close> are the methods. They call each other, and
  nothing in the source bounds the depth of the calls, so each takes fuel: the result is
  \<open>None\<close> when the fuel does not suffice.
\<close>

fun request :: "transport \<Rightarrow> nat \<Rightarrow> client \<Rightarrow> AxiosRequestConfig \<Rightarrow> (rvalue settled \<times> client) option"
and onRejected :: "transport \<Rightarrow> nat \<Rightarrow> client \<Rightarrow> axios_error \<Rightarrow> (rvalue settled \<times> client) option"
and refreshToken :: "transport \<Rightarrow> nat \<Rightarrow> client \<Rightarrow> (data settled \<times> client) option"
and fetchUser :: "transport \<Rightarrow> nat \<Rightarrow> client \<Rightarrow> (data option settled \<times> client) option"
where
  "request T 0 s config = None"
| "request T (Suc n) s config =
     (let config' = runRequestInterceptors (interceptors s) config;
          s1 = s\<lparr>sent := sent s @ [config']\<rparr>
      in case T (sent s) config' of
           Ok r \<Rightarrow> Some (Fulfilled (RespV r), s1)
         | Fail ro \<Rightarrow> onRejected T n s1 \<lparr>err_response = ro, err_config = config'\<rparr>)"
| "onRejected T 0 s error = None"
| "onRejected T (Suc n) s error =
     (if is401 error \<and> truthy (userRefreshToken s) then
        (case refreshToken T n s of
           None \<Rightarrow> None
         | Some (Rejected err, s1) \<Rightarrow>
             Some (Fulfilled (ErrV error), s1\<lparr>console := console s1 @ [err]\<rparr>)
         | Some (Fulfilled t, s1) \<Rightarrow>
             (case request T n s1 (err_config error) of
                None \<Rightarrow> None
              | Some (Rejected err, s2) \<Rightarrow>
                  Some (Fulfilled (ErrV error), s2\<lparr>console := console s2 @ [err]\<rparr>)
              | Some (Fulfilled v, s2) \<Rightarrow> Some (Fulfilled v, s2)))
      else Some (Fulfilled (ErrV error), s))"
| "refreshToken T 0 s = None"
| "refreshToken T (Suc n) s =
     (case
        (if \<not> truthy (userRefreshToken s) then
           Some (Rejected (Error ''Refresh token not found''), s)
         else
           (case request T n s (refreshRequest (the (userRefreshToken s))) of
              None \<Rightarrow> None
            | Some (Rejected err, s1) \<Rightarrow> Some (Rejected err, s1)
            | Some (Fulfilled (ErrV e), s1) \<Rightarrow> Some (Rejected TypeError, s1)
            | Some (Fulfilled (RespV r), s1) \<Rightarrow>
                (let accessToken = dataToken (rdata r);
                     s2 = useCredentials s1 accessToken
                 in case fetchUser T n s2 of
                      None \<Rightarrow> None
                    | Some (Rejected err, s3) \<Rightarrow> Some (Rejected err, s3)
                    | Some (Fulfilled u, s3) \<Rightarrow> Some (Fulfilled (rdata r), s3))))
      of
        None \<Rightarrow> None
      | Some (Rejected err, s') \<Rightarrow> Some (Rejected (Error ''Refresh token failed''), s')
      | Some (Fulfilled d, s') \<Rightarrow> Some (Fulfilled d, s'))"
| "fetchUser T 0 s = None"
| "fetchUser T (Suc n) s =
     (case request T n s usersMeRequest of
        None \<Rightarrow> None
      | Some (Rejected err, s1) \<Rightarrow> Some (Rejected err, s1)
      | Some (Fulfilled v, s1) \<Rightarrow>
          (let user = data_of v in Some (Fulfilled user, s1\<lparr>user_field := user\<rparr>)))"

text \<open>
  \<open>authWithDiscord\<close> (lines 90 to 96). Reading \<open>response.data.access.token\<close>
  throws a \<open>TypeError\<close> when \<open>response.data\<close> or its \<open>access\<close> is
  \<open>undefined\<close>: on the error object and on a body of another shape. The method
  returns the client itself, which is the state here.
\<close>

definition authWithDiscord ::
  "transport \<Rightarrow> nat \<Rightarrow> client \<Rightarrow> AuthDiscordCredentials \<Rightarrow> (unit settled \<times> client) option" where
  "authWithDiscord T n s credentials =
     (case request T n s (discordRequest credentials) of
        None \<Rightarrow> None
      | Some (Rejected err, s1) \<Rightarrow> Some (Rejected err, s1)
      | Some (Fulfilled (ErrV e), s1) \<Rightarrow> Some (Rejected TypeError, s1)
      | Some (Fulfilled (RespV r), s1) \<Rightarrow>
          (case rdata r of
             AuthTokensD access refresh \<Rightarrow>
               (let accessToken = token access;
                    s2 = s1\<lparr>userRefreshToken := Some (token refresh)\<rparr>
                in Some (Fulfilled (), useCredentials s2 (Some accessToken)))
           | _ \<Rightarrow> Some (Rejected TypeError, s1)))"

text \<open>\<open>logout\<close> (lines 114 to 123).\<close>

definition logout :: "transport \<Rightarrow> nat \<Rightarrow> client \<Rightarrow> (unit settled \<times> client) option" where
  "logout T n s =
     (case request T n s logoutRequest of
        None \<Rightarrow> None
      | Some (Rejected err, s1) \<Rightarrow> Some (Rejected (Error ''Logout failed''), s1)
      | Some (Fulfilled v, s1) \<Rightarrow>
          Some (Fulfilled (),
            emit (s1\<lparr>user_field := None, userRefreshToken := None\<rparr>) Logout PNull))"

section \<open>The popup flows\<close>

subsection \<open>getPath (utils)\<close>

text \<open>
  An object as the list of its own entries in the order of \<open>Object.entries\<close> (names
  that are not array indices: the order of insertion).
\<close>

type_synonym js_object = "(string \<times> jsval) list"

definition typeof :: "jsval \<Rightarrow> string" where
  "typeof v =
     (case v of JUndefined \<Rightarrow> ''undefined'' | JNull \<Rightarrow> ''object''
      | JBoolean b \<Rightarrow> ''boolean'' | JNumber n \<Rightarrow> ''number'' | JString s \<Rightarrow> ''string'')"

text \<open>
  \<open>Object.fromEntries\<close>: a later entry replaces the value of an earlier one with the
  same name, which keeps its place.
\<close>

definition fromEntries :: "(string \<times> 'v) list \<Rightarrow> (string \<times> 'v) list" where
  "fromEntries es = foldl (\<lambda>obj (k, v). AList.update k v obj) [] es"

text \<open>The entries that pass \<open>typeof value === 'string'\<close>, with their string.\<close>

definition stringEntries :: "js_object \<Rightarrow> (string \<times> string) list" where
  "stringEntries data =
     List.map_filter
       (\<lambda>(k, v). if typeof v = ''string'' then (case v of JString x \<Rightarrow> Some (k, x) | _ \<Rightarrow> None)
                  else None)
       data"

text \<open>
  \<open>getPath\<close>. \<open>new URLSearchParams(params)\<close> holds the entries of \<open>params\<close> in
  their order; its serialisation (\<open>query.toString()\<close>) is the platform's and is the
  parameter \<open>toString\<close>.
\<close>

definition getPath ::
  "((string \<times> string) list \<Rightarrow> string) \<Rightarrow> string \<Rightarrow> js_object \<Rightarrow> string" where
  "getPath toString u data =
     (let params = fromEntries (stringEntries data);
          query = params
      in u @ ''?'' @ toString query)"

subsection \<open>createWallet and signTransaction\<close>

text \<open>
  The page: the urls given to \<open>window.open\<close>, the \<open>message\<close> listeners added to
  the window (each closes over its popup, \<open>null\<close> being \<open>None\<close>, and over the
  \<open>resolve\<close> of its promise), the promises created, and the popups on which
  \<open>close()\<close> was called.
\<close>

datatype promise_state = Pending | Resolved | RejectedWith string

record listener =
  l_popup :: "nat option"
  l_promise :: nat

record page =
  opened :: "string list"
  listeners :: "listener list"
  promises :: "promise_state list"
  closed :: "nat list"

text \<open>
  What \<open>openWindow\<close> does in the host: it throws (in a host without \<open>window\<close>),
  or \<open>window.open\<close> returns a window or \<open>null\<close>. The size and the position that
  it computes for the popup are not modelled.
\<close>

datatype open_outcome = Throws string | Returns "nat option"

definition baseURL :: "client \<Rightarrow> string" where
  "baseURL s = (case baseURL_field s of None \<Rightarrow> ''undefined'' | Some b \<Rightarrow> b)"

text \<open>\<open>{ ...data, roomId }\<close>\<close>

definition withRoomId :: "js_object \<Rightarrow> jsval \<Rightarrow> js_object" where
  "withRoomId data roomId = AList.update ''roomId'' roomId data"

text \<open>
  The executor of the promise, the same in both methods but for the path: the popup is
  opened and the listener added, or the exception's message rejects the promise. The
  result is the index of the new promise and the page.
\<close>

definition popupPromise :: "open_outcome \<Rightarrow> client \<Rightarrow> page \<Rightarrow> string \<Rightarrow> nat \<times> page" where
  "popupPromise host s pg path =
     (let p = length (promises pg) in
      case host of
        Throws message \<Rightarrow> (p, pg\<lparr>promises := promises pg @ [RejectedWith message]\<rparr>)
      | Returns popup \<Rightarrow>
          (p, pg\<lparr>opened := opened pg @ [baseURL s @ path],
                 listeners := listeners pg @ [\<lparr>l_popup = popup, l_promise = p\<rparr>],
                 promises := promises pg @ [Pending]\<rparr>))"

definition createWallet ::
  "((string \<times> string) list \<Rightarrow> string) \<Rightarrow> open_outcome \<Rightarrow> client \<Rightarrow> page \<Rightarrow> jsval \<Rightarrow> nat \<times> page" where
  "createWallet toString host s pg roomId =
     popupPromise host s pg (getPath toString ''/auth'' [(''roomId'', roomId)])"

definition signTransaction ::
  "((string \<times> string) list \<Rightarrow> string) \<Rightarrow> open_outcome \<Rightarrow> client \<Rightarrow> page \<Rightarrow> jsval \<Rightarrow> js_object
     \<Rightarrow> nat \<times> page" where
  "signTransaction toString host s pg roomId data =
     popupPromise host s pg (getPath toString ''/transaction/send'' (withRoomId data roomId))"

text \<open>\<open>resolve()\<close> settles a pending promise and does nothing to a settled one.\<close>

definition resolve :: "nat \<Rightarrow> page \<Rightarrow> page" where
  "resolve p pg =
     (if p < length (promises pg) \<and> promises pg ! p = Pending
      then pg\<lparr>promises := (promises pg)[p := Resolved]\<rparr> else pg)"

text \<open>The listener of lines 184 to 189 (and 200 to 205) on one \<open>message\<close> event.\<close>

definition onMessage :: "client \<Rightarrow> string \<Rightarrow> jsval \<Rightarrow> page \<Rightarrow> listener \<Rightarrow> page" where
  "onMessage s origin d pg l =
     (if origin = baseURL s then
        resolve (l_promise l)
          (case l_popup l of
             None \<Rightarrow> pg
           | Some popup \<Rightarrow> if d = JString ''close'' then pg\<lparr>closed := closed pg @ [popup]\<rparr> else pg)
      else pg)"

text \<open>A \<open>message\<close> event reaches every listener added so far, in the order added.\<close>

definition message :: "client \<Rightarrow> page \<Rightarrow> string \<Rightarrow> jsval \<Rightarrow> page" where
  "message s pg origin d = foldl (onMessage s origin d) pg (listeners pg)"

text \<open>
  An invocation of \<open>createWallet\<close> or \<open>signTransaction\<close> that is pending: its
  listener is on the window and its promise is not settled.
\<close>

definition pendingInvocation :: "page \<Rightarrow> nat \<Rightarrow> nat option \<Rightarrow> bool" where
  "pendingInvocation pg p popup =
     (\<lparr>l_popup = popup, l_promise = p\<rparr> \<in> set (listeners pg) \<and>
      p < length (promises pg) \<and> promises pg ! p = Pending)"

text \<open>
  The relation between two states of the client that agree on the refresh credential,
  the base URL, the events emitted and the events delivered to subscribers.
\<close>

definition untouched :: "client \<Rightarrow> client \<Rightarrow> bool" where
  "untouched s s' =
     (events s' = events s \<and> delivered s' = delivered s \<and>
      userRefreshToken s' = userRefreshToken s \<and> baseURL_field s' = baseURL_field s)"

section \<open>Scenarios\<close>

text \<open>Concrete services and clients, used to run the model.\<close>

definition user0 :: data where
  "user0 = UserD \<lparr>id = 7, wallet = Some \<lparr>eth_address = ''0xabc''\<rparr>\<rparr>"

definition ok :: "data \<Rightarrow> outcome" where
  "ok d = Ok \<lparr>status = 200, rdata = d\<rparr>"

definition failWith :: "nat \<Rightarrow> outcome" where
  "failWith code = Fail (Some \<lparr>status = code, rdata = NoContent\<rparr>)"

text \<open>A service that answers every endpoint as documented.\<close>

definition service :: transport where
  "service h c =
     (if url c = ''/api/auth/discord'' then
        ok (AuthTokensD \<lparr>token = ''A'', validUntil = ''t1''\<rparr> \<lparr>token = ''R'', validUntil = ''t2''\<rparr>)
      else if url c = ''/api/auth/refresh'' then
        ok (TokenRecordD \<lparr>token = ''B'', validUntil = ''t3''\<rparr>)
      else if url c = ''/api/users/me'' then ok user0
      else ok NoContent)"

text \<open>The same service with one endpoint answering with the given status.\<close>

definition serviceFailing :: "string \<Rightarrow> nat \<Rightarrow> transport" where
  "serviceFailing u code h c = (if url c = u then failWith code else service h c)"

text \<open>The same service, answering 401 to the first two requests for \<open>/api/wallets\<close>.\<close>

definition serviceExpiring :: transport where
  "serviceExpiring h c =
     (if url c = ''/api/wallets'' \<and> length (filter (\<lambda>c'. url c' = ''/api/wallets'') h) < 2
      then failWith 401 else service h c)"

definition walletsRequest :: AxiosRequestConfig where
  "walletsRequest =
     \<lparr>http_method = GET, url = ''/api/wallets'', authorization = None, payload = NoBody\<rparr>"

text \<open>
  A client that is logged in: the state after \<open>authWithDiscord\<close> and \<open>fetchUser\<close>
  against \<open>service\<close>, with its logs emptied.
\<close>

definition session0 :: client where
  "session0 =
     \<lparr>baseURL_field = Some ''https://wallet.example'', user_field = Some user0,
      userRefreshToken = Some ''R'', interceptors = [Some (Some ''A'')],
      handlers = [(Logout, EjectInterceptor 0)], sent = [], events = [], delivered = [],
      console = []\<rparr>"


definition credentials0 :: AuthDiscordCredentials where
  "credentials0 = \<lparr>cred_code = ''c0'', cred_roomId = None\<rparr>"


text \<open>The service, issuing other tokens from the second login on.\<close>

definition serviceRotating :: transport where
  "serviceRotating h c =
     (if url c = ''/api/auth/discord'' \<and> filter (\<lambda>c'. url c' = ''/api/auth/discord'') h \<noteq> [] then
        ok (AuthTokensD \<lparr>token = ''A2'', validUntil = ''t4''\<rparr> \<lparr>token = ''R2'', validUntil = ''t5''\<rparr>)
      else service h c)"

text \<open>The client that the constructor gives for the base URL \<open>https://wallet.example\<close>.\<close>

definition client0 :: client where
  "client0 =
     \<lparr>baseURL_field = Some ''https://wallet.example'', user_field = None,
      userRefreshToken = None, interceptors = [], handlers = [], sent = [], events = [],
      delivered = [], console = []\<rparr>"

text \<open>An empty page, a transaction with a field that is not a string.\<close>

definition page0 :: page where
  "page0 = \<lparr>opened = [], listeners = [], promises = [], closed = []\<rparr>"

definition transaction0 :: js_object where
  "transaction0 = [(''to'', JString ''0x1''), (''value'', JNumber 5), (''data'', JString ''0x'')]"

text \<open>
  A stand-in for the platform's serialisation, right for names and values that need no
  escaping: \<open>name=value\<close> joined by \<open>&\<close>.
\<close>

fun joinAmp :: "string list \<Rightarrow> string" where
  "joinAmp [] = []"
| "joinAmp [x] = x"
| "joinAmp (x # y # ys) = x @ ''&'' @ joinAmp (y # ys)"

definition plainQuery :: "(string \<times> string) list \<Rightarrow> string" where
  "plainQuery q = joinAmp (map (\<lambda>(k, v). k @ ''='' @ v) q)"

text \<open>
  A service that refuses every access credential but \<open>B\<close>, the one that its refresh
  endpoint issues; and the clients whose first interceptor, not ejected, is the one of
  the credential \<open>A\<close> and that hold a refresh credential.
\<close>

definition serviceStale :: transport where
  "serviceStale h c =
     (if url c = ''/api/auth/refresh'' then ok (TokenRecordD \<lparr>token = ''B'', validUntil = ''t3''\<rparr>)
      else if authorization c = Some ''Bearer B'' then service h c
      else failWith 401)"

definition staleSession :: "client \<Rightarrow> bool" where
  "staleSession s =
     ((\<exists>rest. interceptors s = Some (Some ''A'') # rest) \<and> truthy (userRefreshToken s))"



section \<open>The constructor\<close>

lemma client0_constructed: "constructor (JString ''https://wallet.example'') = Inr client0"
  by (simp add: constructor_def clientOptionsSchema_def client0_def)

lemma constructor_validates:
  "constructor (JString []) = Inl (Error ''`baseURL` should be a string.'')"
  "constructor (JNumber 3) = Inl (Error ''`baseURL` should be a string.'')"
  "isLoggedIn client0 = False"
  by (simp_all add: constructor_def clientOptionsSchema_def client0_def isLoggedIn_def
      truthy_data_def)

section \<open>Properties of the request pipeline\<close>

text \<open>The promise of \<open>_client.request\<close> never rejects: the rejected handler returns.\<close>

lemma onRejected_fulfils: "onRejected T n s e = Some (r, s') \<Longrightarrow> \<exists>v. r = Fulfilled v"
  by (cases n) (auto split: if_splits option.splits prod.splits settled.splits)

lemma request_fulfils: "request T n s c = Some (r, s') \<Longrightarrow> \<exists>v. r = Fulfilled v"
  by (cases n) (auto simp: Let_def split: outcome.splits dest: onRejected_fulfils)

lemma fetchUser_fulfils: "fetchUser T n s = Some (r, s') \<Longrightarrow> \<exists>v. r = Fulfilled v"
  by (cases n)
    (auto simp: Let_def split: option.splits prod.splits settled.splits dest: request_fulfils)

lemma useCredentials_fields:
  "events (useCredentials s t) = events s"
  "delivered (useCredentials s t) = delivered s"
  "userRefreshToken (useCredentials s t) = userRefreshToken s"
  "baseURL_field (useCredentials s t) = baseURL_field s"
  "sent (useCredentials s t) = sent s"
  "user_field (useCredentials s t) = user_field s"
  "console (useCredentials s t) = console s"
  by (simp_all add: useCredentials_def on_event_def Let_def)

text \<open>
  A relation between clients that holds across each elementary update holds across the
  four mutually recursive operations.
\<close>

lemma preserved_all:
  assumes refl: "\<And>s. P s s"
    and trans: "\<And>s s1 s2. P s s1 \<Longrightarrow> P s1 s2 \<Longrightarrow> P s s2"
    and sent: "\<And>s c. P s (s\<lparr>sent := sent s @ [c]\<rparr>)"
    and console: "\<And>s x. P s (s\<lparr>console := console s @ [x]\<rparr>)"
    and user: "\<And>s u. P s (s\<lparr>user_field := u\<rparr>)"
    and creds: "\<And>s t. P s (useCredentials s t)"
  shows "(\<forall>s c r s'. request T n s c = Some (r, s') \<longrightarrow> P s s') \<and>
         (\<forall>s e r s'. onRejected T n s e = Some (r, s') \<longrightarrow> P s s') \<and>
         (\<forall>s r s'. refreshToken T n s = Some (r, s') \<longrightarrow> P s s') \<and>
         (\<forall>s r s'. fetchUser T n s = Some (r, s') \<longrightarrow> P s s')"
proof (induction n)
  case 0
  show ?case by simp
next
  case (Suc n)
  then have req: "\<And>s c r s'. request T n s c = Some (r, s') \<Longrightarrow> P s s'"
    and rej: "\<And>s e r s'. onRejected T n s e = Some (r, s') \<Longrightarrow> P s s'"
    and ref: "\<And>s r s'. refreshToken T n s = Some (r, s') \<Longrightarrow> P s s'"
    and fet: "\<And>s r s'. fetchUser T n s = Some (r, s') \<Longrightarrow> P s s'"
    by blast+
  have 1: "P s s'" if run: "request T (Suc n) s c = Some (r, s')" for s c r s'
  proof (cases "T (sent s) (runRequestInterceptors (interceptors s) c)")
    case (Ok resp)
    with run have "s' = s\<lparr>sent := sent s @ [runRequestInterceptors (interceptors s) c]\<rparr>"
      by (simp add: Let_def)
    then show ?thesis by (simp add: sent)
  next
    case (Fail ro)
    with run have "onRejected T n (s\<lparr>sent := sent s @ [runRequestInterceptors (interceptors s) c]\<rparr>)
        \<lparr>err_response = ro, err_config = runRequestInterceptors (interceptors s) c\<rparr> = Some (r, s')"
      by (simp add: Let_def)
    from rej[OF this] show ?thesis using sent trans by blast
  qed
  have 2: "P s s'" if run: "onRejected T (Suc n) s e = Some (r, s')" for s e r s'
  proof (cases "is401 e \<and> truthy (userRefreshToken s)")
    case False
    with run have "s' = s" by auto
    then show ?thesis by (simp add: refl)
  next
    case True
    show ?thesis
    proof (cases "refreshToken T n s")
      case None
      with run True show ?thesis by simp
    next
      case (Some a)
      obtain x s1 where a: "a = (x, s1)" by (cases a)
      with Some have s1: "P s s1" using ref by blast
      show ?thesis
      proof (cases x)
        case (Rejected err)
        with run True Some a have "s' = s1\<lparr>console := console s1 @ [err]\<rparr>" by simp
        then show ?thesis using s1 console trans by blast
      next
        case (Fulfilled d)
        show ?thesis
        proof (cases "request T n s1 (err_config e)")
          case None
          with run True Some a Fulfilled show ?thesis by simp
        next
          case (Some b)
          obtain y s2 where b: "b = (y, s2)" by (cases b)
          with Some have s2: "P s1 s2" using req by blast
          from Some b obtain v where "y = Fulfilled v" using request_fulfils by blast
          with run True \<open>refreshToken T n s = Some a\<close> a Fulfilled Some b have "s' = s2" by simp
          then show ?thesis using s1 s2 trans by blast
        qed
      qed
    qed
  qed
  have 3: "P s s'" if run: "refreshToken T (Suc n) s = Some (r, s')" for s r s'
  proof (cases "truthy (userRefreshToken s)")
    case False
    with run have "s' = s" by simp
    then show ?thesis by (simp add: refl)
  next
    case True
    show ?thesis
    proof (cases "request T n s (refreshRequest (the (userRefreshToken s)))")
      case None
      with run True show ?thesis by simp
    next
      case (Some a)
      obtain x s1 where a: "a = (x, s1)" by (cases a)
      with Some have s1: "P s s1" using req by blast
      from Some a obtain v where x: "x = Fulfilled v" using request_fulfils by blast
      show ?thesis
      proof (cases v)
        case (ErrV e)
        with run True Some a x have "s' = s1" by simp
        then show ?thesis using s1 by simp
      next
        case (RespV resp)
        show ?thesis
        proof (cases "fetchUser T n (useCredentials s1 (dataToken (rdata resp)))")
          case None
          with run True Some a x RespV show ?thesis by (simp add: Let_def)
        next
          case (Some b)
          obtain y s3 where b: "b = (y, s3)" by (cases b)
          with Some have s3: "P (useCredentials s1 (dataToken (rdata resp))) s3" using fet by blast
          from Some b obtain u where "y = Fulfilled u" using fetchUser_fulfils by blast
          with run True \<open>request T n s (refreshRequest (the (userRefreshToken s))) = Some a\<close>
            a x RespV Some b have "s' = s3" by (simp add: Let_def)
          then show ?thesis using s1 s3 creds trans by blast
        qed
      qed
    qed
  qed
  have 4: "P s s'" if run: "fetchUser T (Suc n) s = Some (r, s')" for s r s'
  proof (cases "request T n s usersMeRequest")
    case None
    with run show ?thesis by simp
  next
    case (Some a)
    obtain x s1 where a: "a = (x, s1)" by (cases a)
    with Some have s1: "P s s1" using req by blast
    from Some a obtain v where x: "x = Fulfilled v" using request_fulfils by blast
    with run Some a have "s' = s1\<lparr>user_field := data_of v\<rparr>" by (simp add: Let_def)
    then show ?thesis using s1 user trans by blast
  qed
  from 1 2 3 4 show ?case by blast
qed

text \<open>
  None of the four operations touches the refresh credential, the base URL, the events
  emitted or the events delivered to subscribers.
\<close>

lemma untouched_all:
  "(\<forall>s c r s'. request T n s c = Some (r, s') \<longrightarrow> untouched s s') \<and>
   (\<forall>s e r s'. onRejected T n s e = Some (r, s') \<longrightarrow> untouched s s') \<and>
   (\<forall>s r s'. refreshToken T n s = Some (r, s') \<longrightarrow> untouched s s') \<and>
   (\<forall>s r s'. fetchUser T n s = Some (r, s') \<longrightarrow> untouched s s')"
  by (rule preserved_all) (simp_all add: untouched_def useCredentials_fields)

lemma request_untouched: "request T n s c = Some (r, s') \<Longrightarrow> untouched s s'"
  using untouched_all by blast

lemma refreshToken_untouched: "refreshToken T n s = Some (r, s') \<Longrightarrow> untouched s s'"
  using untouched_all by blast

lemma fetchUser_untouched: "fetchUser T n s = Some (r, s') \<Longrightarrow> untouched s s'"
  using untouched_all by blast

text \<open>The log of dispatched requests only grows.\<close>

lemma sent_grows_all:
  "(\<forall>s c r s'. request T n s c = Some (r, s') \<longrightarrow> (\<exists>rest. sent s' = sent s @ rest)) \<and>
   (\<forall>s e r s'. onRejected T n s e = Some (r, s') \<longrightarrow> (\<exists>rest. sent s' = sent s @ rest)) \<and>
   (\<forall>s r s'. refreshToken T n s = Some (r, s') \<longrightarrow> (\<exists>rest. sent s' = sent s @ rest)) \<and>
   (\<forall>s r s'. fetchUser T n s = Some (r, s') \<longrightarrow> (\<exists>rest. sent s' = sent s @ rest))"
  by (rule preserved_all [where P = "\<lambda>s s'. \<exists>rest. sent s' = sent s @ rest"])
    (auto simp: useCredentials_fields)

section \<open>The emitter's handlers\<close>

lemma run_handler_fields:
  "events (run_handler k p s h) = events s"
  "user_field (run_handler k p s h) = user_field s"
  "userRefreshToken (run_handler k p s h) = userRefreshToken s"
  "sent (run_handler k p s h) = sent s"
  by (simp_all add: run_handler_def split: handler.splits)

lemma foldl_run_handler_fields:
  "events (foldl (run_handler k p) s hs) = events s \<and>
   user_field (foldl (run_handler k p) s hs) = user_field s \<and>
   userRefreshToken (foldl (run_handler k p) s hs) = userRefreshToken s \<and>
   sent (foldl (run_handler k p) s hs) = sent s"
  by (induction hs arbitrary: s) (simp_all add: run_handler_fields)

lemma emit_fields:
  "events (emit s k p) = events s @ [(k, p)]"
  "user_field (emit s k p) = user_field s"
  "userRefreshToken (emit s k p) = userRefreshToken s"
  "sent (emit s k p) = sent s"
  by (simp_all add: emit_def foldl_run_handler_fields)

section \<open>logout\<close>

text \<open>
  Claim C1. The claim: when the remote logout call fails, \<open>logout()\<close> fails with the
  error "Logout failed", keeps the stored user and refresh credential and emits nothing;
  when it succeeds, \<open>logout()\<close> clears both and emits one \<open>logout\<close> event.

  The code does the second for every outcome of the remote call. The \<open>catch\<close> of
  \<open>logout\<close> handles a rejection of \<open>_client.post\<close>, and the promise of
  \<open>_client.post\<close> never rejects (\<open>request_fulfils\<close>): the response interceptor
  returns the error object. So whenever the request settles, with a response or with a
  failure, \<open>logout()\<close> resolves, the user and the refresh credential are cleared and
  one \<open>logout\<close> event is emitted. The branch that throws "Logout failed" is never
  taken.
\<close>

theorem logout_clears_whenever_request_settles:
  assumes "logout T n s = Some (r, s')"
  shows "r = Fulfilled () \<and> user_field s' = None \<and> userRefreshToken s' = None \<and>
         \<not> isLoggedIn s' \<and> events s' = events s @ [(Logout, PNull)]"
proof (cases "request T n s logoutRequest")
  case None
  with assms show ?thesis by (simp add: logout_def)
next
  case (Some a)
  obtain x s1 where a: "a = (x, s1)" by (cases a)
  from Some a obtain v where x: "x = Fulfilled v" using request_fulfils by blast
  from Some a have "untouched s s1" using request_untouched by blast
  then have ev: "events s1 = events s" by (simp add: untouched_def)
  from assms Some a x
  have r: "r = Fulfilled ()"
    and s': "s' = emit (s1\<lparr>user_field := None, userRefreshToken := None\<rparr>) Logout PNull"
    by (simp_all add: logout_def)
  from s' ev show ?thesis
    by (simp add: r emit_fields isLoggedIn_def truthy_def truthy_data_def)
qed

text \<open>
  The remote logout answers 500 to a logged-in client: \<open>logout()\<close> resolves, the
  client is logged out and the event is emitted.
\<close>

theorem logout_clears_whenever_request_settles_witness:
  "isLoggedIn session0 \<and> events session0 = [] \<and>
   (\<exists>s'. logout (serviceFailing ''/api/auth/logout'' 500) 2 session0 = Some (Fulfilled (), s') \<and>
      \<not> isLoggedIn s' \<and> events s' = [(Logout, PNull)])"
proof -
  have li: "isLoggedIn session0" by code_simp
  have ev: "events session0 = []" by (simp add: session0_def)
  have "logout (serviceFailing ''/api/auth/logout'' 500) 2 session0 \<noteq> None"
    by code_simp
  then obtain r s' where
    run: "logout (serviceFailing ''/api/auth/logout'' 500) 2 session0 = Some (r, s')"
    by auto
  from logout_clears_whenever_request_settles [OF run] li ev run show ?thesis by simp
qed

section \<open>refreshToken without a credential\<close>

text \<open>
  Claim C5, as amended. With no refresh credential stored (absent or the empty string)
  \<open>refreshToken()\<close> fails, dispatches no request and leaves the client as it was:
  the state returned is the state given, its log of dispatched requests included. The
  error is "Refresh token failed", the one every other failure of \<open>refreshToken()\<close>
  gives: "Refresh token not found" is thrown inside the \<open>try\<close> and the \<open>catch\<close>
  replaces it.
\<close>

theorem refreshToken_without_credential:
  assumes "\<not> truthy (userRefreshToken s)"
  shows "refreshToken T (Suc n) s = Some (Rejected (Error ''Refresh token failed''), s)"
  using assms by simp

theorem refreshToken_without_credential_witness:
  "\<not> truthy (userRefreshToken client0) \<and>
   refreshToken service (Suc 0) client0 = Some (Rejected (Error ''Refresh token failed''), client0)"
proof -
  have h: "\<not> truthy (userRefreshToken client0)" by code_simp
  from refreshToken_without_credential [OF h, of service 0] h show ?thesis by simp
qed

text \<open>
  The claim as stated fails: the error of the call without a credential is not the
  missing-credential error, and it is the error of a call whose refresh endpoint
  answers 500.
\<close>

theorem refreshToken_missing_credential_error_not_distinct:
  "refreshToken service 1 client0 \<noteq> Some (Rejected (Error ''Refresh token not found''), client0) \<and>
   map_option fst (refreshToken service 1 client0) =
     map_option fst (refreshToken (serviceFailing ''/api/auth/refresh'' 500) 3 session0)"
  by code_simp

section \<open>fetchUser\<close>

text \<open>
  Claim C7. The claim: when the identity endpoint fails, \<open>fetchUser()\<close> rejects with
  the collaborator's error, unchanged. The code does not: the else branch of the
  response interceptor returns the error object, so \<open>_client.get\<close> is fulfilled with
  it, and \<open>fetchUser\<close> reads its \<open>data\<close>, which it does not have. Whenever the
  identity endpoint fails and the interceptor starts no refresh (the failure is not a
  401, or no refresh credential is stored), the promise of \<open>fetchUser()\<close> is
  fulfilled with \<open>undefined\<close>, the stored user is replaced by \<open>undefined\<close>, and
  the error does not reach the caller.
\<close>

theorem fetchUser_resolves_on_failure:
  assumes "c' = runRequestInterceptors (interceptors s) usersMeRequest"
    and "T (sent s) c' = Fail ro"
    and "\<not> (is401 \<lparr>err_response = ro, err_config = c'\<rparr> \<and> truthy (userRefreshToken s))"
  shows "fetchUser T (Suc (Suc (Suc n))) s =
           Some (Fulfilled None, s\<lparr>sent := sent s @ [c'], user_field := None\<rparr>)"
proof -
  let ?e = "\<lparr>err_response = ro, err_config = c'\<rparr>"
  let ?s1 = "s\<lparr>sent := sent s @ [c']\<rparr>"
  from assms(3) have "\<not> (is401 ?e \<and> truthy (userRefreshToken ?s1))" by simp
  then have "onRejected T (Suc n) ?s1 ?e = Some (Fulfilled (ErrV ?e), ?s1)"
    by (simp only: onRejected.simps if_False)
  with assms(1,2) have "request T (Suc (Suc n)) s usersMeRequest = Some (Fulfilled (ErrV ?e), ?s1)"
    by (simp add: Let_def)
  then show ?thesis by (simp add: Let_def data_of_def)
qed

text \<open>A network failure (no response) on a logged-in client.\<close>

theorem fetchUser_resolves_on_failure_witness:
  "fetchUser (\<lambda>h c. Fail None) 3 session0 =
     Some (Fulfilled None,
           session0\<lparr>sent := [usersMeRequest\<lparr>authorization := Some ''Bearer A''\<rparr>],
                    user_field := None\<rparr>)"
proof -
  let ?c = "usersMeRequest\<lparr>authorization := Some ''Bearer A''\<rparr>"
  have 1: "?c = runRequestInterceptors (interceptors session0) usersMeRequest" by code_simp
  have 2: "(\<lambda>h c. Fail None) (sent session0) ?c = Fail None" by simp
  have 3: "\<not> (is401 \<lparr>err_response = None, err_config = ?c\<rparr> \<and> truthy (userRefreshToken session0))"
    by (simp add: is401_def)
  have 4: "Suc (Suc (Suc 0)) = 3" by simp
  from fetchUser_resolves_on_failure [OF 1 2 3, of 0] show ?thesis
    unfolding 4 by (simp add: session0_def)
qed

text \<open>
  The identity endpoint answers 500 to a logged-in client: the promise of
  \<open>fetchUser()\<close> is fulfilled with \<open>undefined\<close>, and the client is no longer
  logged in.
\<close>

lemma fetchUser_failure_logs_out:
  "isLoggedIn session0 \<and>
   fetchUser (serviceFailing ''/api/users/me'' 500) 3 session0 =
     Some (Fulfilled None,
           session0\<lparr>sent := [usersMeRequest\<lparr>authorization := Some ''Bearer A''\<rparr>],
                    user_field := None\<rparr>) \<and>
   \<not> isLoggedIn (session0\<lparr>sent := [usersMeRequest\<lparr>authorization := Some ''Bearer A''\<rparr>],
                            user_field := None\<rparr>)"
  by code_simp

section \<open>authWithDiscord\<close>

text \<open>
  Claim C9. The claim: a successful login publishes a \<open>login\<close> event to the
  subscribers of that kind. \<open>authWithDiscord\<close> emits nothing: whatever its outcome,
  the events emitted and the events delivered to subscribers are those of before the
  call.
\<close>

theorem authWithDiscord_emits_nothing:
  assumes "authWithDiscord T n s credentials = Some (r, s')"
  shows "events s' = events s \<and> delivered s' = delivered s"
proof (cases "request T n s (discordRequest credentials)")
  case None
  with assms show ?thesis by (simp add: authWithDiscord_def)
next
  case (Some a)
  obtain x s1 where a: "a = (x, s1)" by (cases a)
  from Some a obtain v where x: "x = Fulfilled v" using request_fulfils by blast
  from Some a have "untouched s s1" using request_untouched by blast
  then have ev: "events s1 = events s" "delivered s1 = delivered s" by (simp_all add: untouched_def)
  from assms Some a x
  have "s' = s1 \<or> (\<exists>t u. s' = useCredentials (s1\<lparr>userRefreshToken := t\<rparr>) u)"
    by (auto simp: authWithDiscord_def Let_def split: rvalue.splits data.splits)
  with ev show ?thesis by (auto simp: useCredentials_fields)
qed

text \<open>A successful login of a client with a subscriber to \<open>login\<close>.\<close>

theorem authWithDiscord_emits_nothing_witness:
  "\<exists>s'. authWithDiscord service 1 (on_event client0 Login (Subscriber 0)) credentials0 =
          Some (Fulfilled (), s') \<and>
        userRefreshToken s' = Some ''R'' \<and> events s' = [] \<and> delivered s' = []"
proof -
  let ?s = "on_event client0 Login (Subscriber 0)"
  have "map_option fst (authWithDiscord service 1 ?s credentials0) = Some (Fulfilled ())"
    by code_simp
  then obtain s' where run: "authWithDiscord service 1 ?s credentials0 = Some (Fulfilled (), s')"
    by auto
  have tok: "map_option (userRefreshToken \<circ> snd) (authWithDiscord service 1 ?s credentials0) = Some (Some ''R'')"
    by code_simp
  have ev: "events ?s = []" "delivered ?s = []" by code_simp+
  from authWithDiscord_emits_nothing [OF run] run tok ev show ?thesis by simp
qed

section \<open>The Authorization header\<close>

text \<open>The interceptor registered first runs last, and its header is the one sent.\<close>

lemma runRequestInterceptors_Cons:
  "runRequestInterceptors (h # hs) c =
     (case h of None \<Rightarrow> runRequestInterceptors hs c
      | Some t \<Rightarrow> accessTokenInterceptor t (runRequestInterceptors hs c))"
  by (cases h) (simp_all add: runRequestInterceptors_def)

lemma oldest_credential_wins:
  "t \<noteq> [] \<Longrightarrow>
   authorization (runRequestInterceptors (Some (Some t) # hs) c) = Some (''Bearer '' @ t)"
  by (simp add: runRequestInterceptors_Cons accessTokenInterceptor_def)

text \<open>
  Claim C6. The claim: after a login or refresh, a request carries the access
  credential of the most recent one. Two runs show the credential of the first login
  instead. A client logs in (access credential \<open>A\<close>) and then refreshes (the refresh
  endpoint returns the access credential \<open>B\<close>, which \<open>refreshToken()\<close> returns);
  the next request is dispatched with \<open>Authorization: Bearer A\<close>. A client logs in
  (access credential \<open>A\<close>) and logs in again (access credential \<open>A2\<close>, refresh
  credential \<open>R2\<close>, which is stored); the next request is dispatched with
  \<open>Authorization: Bearer A\<close>.
\<close>

theorem stale_credential_after_refresh:
  "Option.bind (authWithDiscord service 1 client0 credentials0) (\<lambda>(r1, s1).
     Option.bind (refreshToken service 3 s1) (\<lambda>(r2, s2).
       map_option (\<lambda>(r3, s3). (r1, r2, authorization (last (sent s3))))
         (request service 1 s2 walletsRequest))) =
   Some (Fulfilled (), Fulfilled (TokenRecordD \<lparr>token = ''B'', validUntil = ''t3''\<rparr>),
         Some ''Bearer A'') \<and>
   Option.bind (authWithDiscord serviceRotating 1 client0 credentials0) (\<lambda>(r1, s1).
     Option.bind (authWithDiscord serviceRotating 1 s1 credentials0) (\<lambda>(r2, s2).
       map_option (\<lambda>(r3, s3). (r1, r2, userRefreshToken s3, authorization (last (sent s3))))
         (request serviceRotating 1 s2 walletsRequest))) =
   Some (Fulfilled (), Fulfilled (), Some ''R2'', Some ''Bearer A'')"
  by code_simp

section \<open>The refresh-and-retry cycle\<close>

lemma request_Suc_Fail:
  assumes "c' = runRequestInterceptors (interceptors s) c" and "T (sent s) c' = Fail ro"
  shows "request T (Suc n) s c =
           onRejected T n (s\<lparr>sent := sent s @ [c']\<rparr>) \<lparr>err_response = ro, err_config = c'\<rparr>"
  using assms by (simp add: Let_def)

lemma request_Suc_Ok:
  assumes "c' = runRequestInterceptors (interceptors s) c" and "T (sent s) c' = Ok resp"
  shows "request T (Suc n) s c = Some (Fulfilled (RespV resp), s\<lparr>sent := sent s @ [c']\<rparr>)"
  using assms by (simp add: Let_def)

text \<open>
  After a refresh that succeeded, the handler's result is the result of sending the
  original configuration through \<open>_client.request\<close>, interceptors included.
\<close>

lemma onRejected_retries_through_request:
  assumes "is401 e" and "truthy (userRefreshToken s)"
    and "refreshToken T n s = Some (Fulfilled d, s1)"
  shows "onRejected T (Suc n) s e = request T n s1 (err_config e)"
proof (cases "request T n s1 (err_config e)")
  case None
  with assms show ?thesis by simp
next
  case (Some a)
  obtain y s2 where a: "a = (y, s2)" by (cases a)
  from Some a obtain v where "y = Fulfilled v" using request_fulfils by blast
  with assms Some a show ?thesis by simp
qed

text \<open>
  Claim C2, as amended. A request is answered 401 while a refresh credential is stored:
  the interceptor that handles this 401 refreshes once and, the refresh having
  succeeded, sends the original request once more through the same client. The request
  sent again passes the same interceptor: when it is answered 401 as well, the handler
  runs on that 401, in a state where the refresh credential is still stored, so that it
  refreshes and retries as before.
\<close>

theorem retried_401_is_intercepted_again:
  assumes "is401 e" and "truthy (userRefreshToken s)"
    and "refreshToken T (Suc n) s = Some (Fulfilled d, s1)"
    and "c' = runRequestInterceptors (interceptors s1) (err_config e)"
    and "T (sent s1) c' = Fail (Some resp)" and "status resp = 401"
  shows "onRejected T (Suc (Suc n)) s e =
           onRejected T n (s1\<lparr>sent := sent s1 @ [c']\<rparr>) \<lparr>err_response = Some resp, err_config = c'\<rparr> \<and>
         is401 \<lparr>err_response = Some resp, err_config = c'\<rparr> \<and>
         truthy (userRefreshToken (s1\<lparr>sent := sent s1 @ [c']\<rparr>))"
proof -
  from assms(3) have "untouched s s1" by (rule refreshToken_untouched)
  with assms(2) have tok: "truthy (userRefreshToken s1)" by (simp add: untouched_def)
  have "onRejected T (Suc (Suc n)) s e = request T (Suc n) s1 (err_config e)"
    using assms(1-3) by (rule onRejected_retries_through_request)
  also have "\<dots> = onRejected T n (s1\<lparr>sent := sent s1 @ [c']\<rparr>) \<lparr>err_response = Some resp, err_config = c'\<rparr>"
    using assms(4,5) by (rule request_Suc_Fail)
  finally show ?thesis using tok assms(6) by (simp add: is401_def)
qed

text \<open>
  The handler of the first 401 of \<open>/api/wallets\<close>, against the service that answers
  401 twice: the refresh succeeds, the retry is answered 401, and the handler runs on it.
\<close>

theorem retried_401_is_intercepted_again_witness:
  "refreshToken serviceExpiring (Suc 4)
     (session0\<lparr>sent := [walletsRequest\<lparr>authorization := Some ''Bearer A''\<rparr>]\<rparr>) =
     Some (Fulfilled (TokenRecordD \<lparr>token = ''B'', validUntil = ''t3''\<rparr>),
           useCredentials
             (session0\<lparr>sent := [walletsRequest\<lparr>authorization := Some ''Bearer A''\<rparr>,
                               refreshRequest ''A'',
                               usersMeRequest\<lparr>authorization := Some ''Bearer A''\<rparr>]\<rparr>)
             (Some ''B'')) \<and>
   onRejected serviceExpiring (Suc (Suc 4))
     (session0\<lparr>sent := [walletsRequest\<lparr>authorization := Some ''Bearer A''\<rparr>]\<rparr>)
     \<lparr>err_response = Some \<lparr>status = 401, rdata = NoContent\<rparr>,
      err_config = walletsRequest\<lparr>authorization := Some ''Bearer A''\<rparr>\<rparr> =
   onRejected serviceExpiring 4
     (useCredentials
        (session0\<lparr>sent := [walletsRequest\<lparr>authorization := Some ''Bearer A''\<rparr>,
                          refreshRequest ''A'',
                          usersMeRequest\<lparr>authorization := Some ''Bearer A''\<rparr>]\<rparr>)
        (Some ''B'')
      \<lparr>sent := [walletsRequest\<lparr>authorization := Some ''Bearer A''\<rparr>,
                refreshRequest ''A'',
                usersMeRequest\<lparr>authorization := Some ''Bearer A''\<rparr>,
                walletsRequest\<lparr>authorization := Some ''Bearer A''\<rparr>]\<rparr>)
     \<lparr>err_response = Some \<lparr>status = 401, rdata = NoContent\<rparr>,
      err_config = walletsRequest\<lparr>authorization := Some ''Bearer A''\<rparr>\<rparr>"
proof -
  let ?c = "walletsRequest\<lparr>authorization := Some ''Bearer A''\<rparr>"
  let ?resp = "\<lparr>status = 401, rdata = NoContent\<rparr>"
  let ?e = "\<lparr>err_response = Some ?resp, err_config = ?c\<rparr>"
  let ?s = "session0\<lparr>sent := [?c]\<rparr>"
  let ?s1 = "useCredentials
     (session0\<lparr>sent := [?c, refreshRequest ''A'',
        usersMeRequest\<lparr>authorization := Some ''Bearer A''\<rparr>]\<rparr>) (Some ''B'')"
  let ?d = "TokenRecordD \<lparr>token = ''B'', validUntil = ''t3''\<rparr>"
  have 1: "is401 ?e" by (simp add: is401_def)
  have 2: "truthy (userRefreshToken ?s)" by code_simp
  have 3: "refreshToken serviceExpiring (Suc 4) ?s = Some (Fulfilled ?d, ?s1)" by code_simp
  have 4: "?c = runRequestInterceptors (interceptors ?s1) (err_config ?e)" by code_simp
  have 5: "serviceExpiring (sent ?s1) ?c = Fail (Some ?resp)" by code_simp
  have 6: "status ?resp = 401" by simp
  have 7: "sent ?s1 @ [?c] = [?c, refreshRequest ''A'',
        usersMeRequest\<lparr>authorization := Some ''Bearer A''\<rparr>, ?c]"
    by (simp add: useCredentials_fields)
  from retried_401_is_intercepted_again [OF 1 2 3 4 5 6] 3 show ?thesis
    unfolding 7 by simp
qed

text \<open>
  The claim as stated fails: one request for \<open>/api/wallets\<close> whose first two
  dispatches are answered 401 is dispatched three times, with a refresh (and the fetch
  of the user that belongs to it) before each of the two retries.
\<close>

theorem retried_401_refreshes_and_retries_again:
  "map_option (map url \<circ> sent \<circ> snd) (request serviceExpiring 7 session0 walletsRequest) =
     Some [''/api/wallets'', ''/api/auth/refresh'', ''/api/users/me'',
           ''/api/wallets'', ''/api/auth/refresh'', ''/api/users/me'',
           ''/api/wallets'']"
  by code_simp

text \<open>
  Nothing in the client ends the cycle. Against a service that answers 401 to
  \<open>/api/wallets\<close> every time, and serves the refresh, a request for it does not
  settle, whatever the fuel.
\<close>

lemma url_accessTokenInterceptor: "url (accessTokenInterceptor t c) = url c"
  by (simp add: accessTokenInterceptor_def split: option.splits)

lemma method_accessTokenInterceptor: "http_method (accessTokenInterceptor t c) = http_method c"
  by (simp add: accessTokenInterceptor_def split: option.splits)

lemma url_runRequestInterceptors: "url (runRequestInterceptors hs c) = url c"
  by (induction hs)
    (simp_all add: runRequestInterceptors_def url_accessTokenInterceptor split: option.splits)

lemma method_runRequestInterceptors: "http_method (runRequestInterceptors hs c) = http_method c"
  by (induction hs)
    (simp_all add: runRequestInterceptors_def method_accessTokenInterceptor split: option.splits)

lemma refresh_endpoint_up:
  assumes tok: "truthy (userRefreshToken s)"
    and run: "refreshToken (serviceFailing ''/api/wallets'' 401) k s = Some (x, s2)"
  shows "\<exists>d. x = Fulfilled d"
proof (cases k)
  case 0
  with run show ?thesis by simp
next
  case (Suc j)
  let ?T = "serviceFailing ''/api/wallets'' 401"
  let ?req = "refreshRequest (the (userRefreshToken s))"
  let ?c = "runRequestInterceptors (interceptors s) ?req"
  have "url ?c = ''/api/auth/refresh''"
    by (simp add: url_runRequestInterceptors refreshRequest_def)
  then have T: "?T (sent s) ?c = Ok \<lparr>status = 200, rdata = TokenRecordD \<lparr>token = ''B'', validUntil = ''t3''\<rparr>\<rparr>"
    by (simp add: serviceFailing_def service_def ok_def)
  show ?thesis
  proof (cases j)
    case 0
    with run Suc tok show ?thesis by simp
  next
    case (Suc i)
    let ?r = "\<lparr>status = 200, rdata = TokenRecordD \<lparr>token = ''B'', validUntil = ''t3''\<rparr>\<rparr>"
    let ?s1 = "s\<lparr>sent := sent s @ [?c]\<rparr>"
    have req: "request ?T j s ?req = Some (Fulfilled (RespV ?r), ?s1)"
      unfolding Suc using T by (intro request_Suc_Ok) simp_all
    show ?thesis
    proof (cases "fetchUser ?T j (useCredentials ?s1 (dataToken (rdata ?r)))")
      case None
      with run \<open>k = Suc j\<close> tok req show ?thesis by (simp add: Let_def)
    next
      case (Some b)
      obtain y s3 where b: "b = (y, s3)" by (cases b)
      from Some b obtain u where "y = Fulfilled u" using fetchUser_fulfils by blast
      with run \<open>k = Suc j\<close> tok req Some b show ?thesis by (auto simp: Let_def)
    qed
  qed
qed

lemma request_never_settles:
  "truthy (userRefreshToken s) \<Longrightarrow> url c = ''/api/wallets'' \<Longrightarrow>
   request (serviceFailing ''/api/wallets'' 401) n s c = None"
proof (induction n arbitrary: s c rule: less_induct)
  case (less n)
  let ?T = "serviceFailing ''/api/wallets'' 401"
  show ?case
  proof (cases n)
    case 0
    then show ?thesis by simp
  next
    case (Suc m)
    let ?c = "runRequestInterceptors (interceptors s) c"
    let ?resp = "\<lparr>status = 401, rdata = NoContent\<rparr>"
    let ?e = "\<lparr>err_response = Some ?resp, err_config = ?c\<rparr>"
    let ?s1 = "s\<lparr>sent := sent s @ [?c]\<rparr>"
    have u: "url ?c = ''/api/wallets''" using less.prems(2) by (simp add: url_runRequestInterceptors)
    then have "?T (sent s) ?c = Fail (Some ?resp)" by (simp add: serviceFailing_def failWith_def)
    then have step: "request ?T (Suc m) s c = onRejected ?T m ?s1 ?e"
      by (intro request_Suc_Fail) simp_all
    have e: "is401 ?e" by (simp add: is401_def)
    have tok1: "truthy (userRefreshToken ?s1)" using less.prems(1) by simp
    show ?thesis
    proof (cases m)
      case 0
      with step Suc show ?thesis by simp
    next
      case (Suc k)
      note m = Suc
      show ?thesis
      proof (cases "refreshToken ?T k ?s1")
        case None
        with step \<open>n = Suc m\<close> m e tok1 show ?thesis by simp
      next
        case (Some a)
        obtain x s2 where a: "a = (x, s2)" by (cases a)
        from Some a tok1 obtain d where x: "x = Fulfilled d" using refresh_endpoint_up by blast
        from Some a have "untouched ?s1 s2" using refreshToken_untouched by blast
        with tok1 have tok2: "truthy (userRefreshToken s2)" by (simp add: untouched_def)
        from Some a x have "onRejected ?T (Suc k) ?s1 ?e = request ?T k s2 (err_config ?e)"
          using e tok1 by (intro onRejected_retries_through_request) simp_all
        also have "\<dots> = None"
          using tok2 u \<open>n = Suc m\<close> m by (intro less.IH) simp_all
        finally show ?thesis using step \<open>n = Suc m\<close> m by simp
      qed
    qed
  qed
qed


section \<open>The response interceptor\<close>






section \<open>refreshToken with a credential\<close>

lemma request_sends_first:
  assumes "request T n s c = Some (r, s')"
  shows "\<exists>rest. sent s' = sent s @ runRequestInterceptors (interceptors s) c # rest"
proof (cases n)
  case 0
  with assms show ?thesis by simp
next
  case (Suc m)
  let ?c = "runRequestInterceptors (interceptors s) c"
  show ?thesis
  proof (cases "T (sent s) ?c")
    case (Ok resp)
    with assms Suc have "s' = s\<lparr>sent := sent s @ [?c]\<rparr>" by (simp add: Let_def)
    then show ?thesis by simp
  next
    case (Fail ro)
    with assms Suc have "onRejected T m (s\<lparr>sent := sent s @ [?c]\<rparr>) \<lparr>err_response = ro, err_config = ?c\<rparr> = Some (r, s')"
      by (simp add: Let_def)
    then obtain rest where "sent s' = sent (s\<lparr>sent := sent s @ [?c]\<rparr>) @ rest"
      using sent_grows_all by blast
    then show ?thesis by simp
  qed
qed

text \<open>
  What a call of \<open>refreshToken()\<close> that succeeded has done: a refresh credential was
  stored; the request to the refresh endpoint was fulfilled with a response \<open>r\<close>;
  the call returns the body of \<open>r\<close>; after that response, and before the call
  returns, a \<open>GET /api/users/me\<close> was dispatched (it is the next entry of the log of
  requests); and the user stored when the call returns is the \<open>data\<close> of what that
  fetch settled with.
\<close>

lemma fulfilled_refreshToken_refetched_user:
  assumes "refreshToken T n s = Some (Fulfilled d, s')"
  shows "\<exists>m r s1 v s2 c rest.
           n = Suc (Suc m) \<and> truthy (userRefreshToken s) \<and>
           request T (Suc m) s (refreshRequest (the (userRefreshToken s))) =
             Some (Fulfilled (RespV r), s1) \<and>
           d = rdata r \<and>
           request T m (useCredentials s1 (dataToken (rdata r))) usersMeRequest =
             Some (Fulfilled v, s2) \<and>
           sent s2 = sent s1 @ c # rest \<and> http_method c = GET \<and> url c = ''/api/users/me'' \<and>
           s' = s2\<lparr>user_field := data_of v\<rparr> \<and> user_field s' = data_of v"
proof (cases n)
  case 0
  with assms show ?thesis by simp
next
  case (Suc k)
  note n = Suc
  have tok: "truthy (userRefreshToken s)"
  proof (rule ccontr)
    assume "\<not> truthy (userRefreshToken s)"
    with assms n show False by simp
  qed
  let ?req = "refreshRequest (the (userRefreshToken s))"
  show ?thesis
  proof (cases "request T k s ?req")
    case None
    with assms n tok show ?thesis by simp
  next
    case (Some a)
    obtain x s1 where a: "a = (x, s1)" by (cases a)
    from Some a obtain w where x: "x = Fulfilled w" using request_fulfils by blast
    show ?thesis
    proof (cases w)
      case (ErrV e)
      with assms n tok Some a x show ?thesis by simp
    next
      case (RespV r)
      let ?s2 = "useCredentials s1 (dataToken (rdata r))"
      show ?thesis
      proof (cases "fetchUser T k ?s2")
        case None
        with assms n tok Some a x RespV show ?thesis by (simp add: Let_def)
      next
        case (Some b)
        obtain y s3 where b: "b = (y, s3)" by (cases b)
        from Some b obtain u where y: "y = Fulfilled u" using fetchUser_fulfils by blast
        from assms n tok \<open>request T k s ?req = Some a\<close> a x RespV Some b y
        have d: "d = rdata r" and s': "s' = s3" by (simp_all add: Let_def)
        show ?thesis
        proof (cases k)
          case 0
          with Some show ?thesis by simp
        next
          case (Suc m)
          show ?thesis
          proof (cases "request T m ?s2 usersMeRequest")
            case None
            with \<open>fetchUser T k ?s2 = Some b\<close> Suc show ?thesis by simp
          next
            case (Some g)
            obtain z s4 where g: "g = (z, s4)" by (cases g)
            from Some g obtain v where z: "z = Fulfilled v" using request_fulfils by blast
            from \<open>fetchUser T k ?s2 = Some b\<close> b Suc Some g z
            have s3: "s3 = s4\<lparr>user_field := data_of v\<rparr>" by (simp add: Let_def)
            from Some g z obtain rest where
              "sent s4 = sent ?s2 @ runRequestInterceptors (interceptors ?s2) usersMeRequest # rest"
              using request_sends_first by blast
            then have sent: "sent s4 = sent s1 @ runRequestInterceptors (interceptors ?s2) usersMeRequest # rest"
              by (simp add: useCredentials_fields)
            have m: "http_method (runRequestInterceptors (interceptors ?s2) usersMeRequest) = GET"
              and u: "url (runRequestInterceptors (interceptors ?s2) usersMeRequest) = ''/api/users/me''"
              by (simp_all add: method_runRequestInterceptors url_runRequestInterceptors usersMeRequest_def)
            from n Suc tok \<open>request T k s ?req = Some a\<close> a x RespV d Some g z sent m u s' s3
            show ?thesis by auto
          qed
        qed
      qed
    qed
  qed
qed






text \<open>
  The same happens against a service that refuses every access credential but \<open>B\<close>,
  the one that its refresh endpoint issues, when the client holds the interceptor of an
  older credential \<open>A\<close>: that interceptor stays the first registered, so every
  request carries \<open>A\<close>, and the fetch of the user is answered 401 each time.
\<close>

lemma stale_refreshToken_never_returns:
  assumes inv: "staleSession s"
    and below: "\<And>i s' c. i < k \<Longrightarrow> staleSession s' \<Longrightarrow> url c \<noteq> ''/api/auth/refresh'' \<Longrightarrow>
                  request serviceStale i s' c = None"
  shows "refreshToken serviceStale k s = None"
proof (cases k)
  case 0
  then show ?thesis by simp
next
  case (Suc j)
  note k = Suc
  from inv have tok: "truthy (userRefreshToken s)" by (simp add: staleSession_def)
  let ?req = "refreshRequest (the (userRefreshToken s))"
  let ?rc = "runRequestInterceptors (interceptors s) ?req"
  let ?r = "\<lparr>status = 200, rdata = TokenRecordD \<lparr>token = ''B'', validUntil = ''t3''\<rparr>\<rparr>"
  show ?thesis
  proof (cases j)
    case 0
    with k tok show ?thesis by simp
  next
    case (Suc i)
    have "url ?rc = ''/api/auth/refresh''"
      by (simp add: url_runRequestInterceptors refreshRequest_def)
    then have "serviceStale (sent s) ?rc = Ok ?r" by (simp add: serviceStale_def ok_def)
    then have req: "request serviceStale j s ?req = Some (Fulfilled (RespV ?r), s\<lparr>sent := sent s @ [?rc]\<rparr>)"
      unfolding Suc by (intro request_Suc_Ok) simp_all
    let ?s2 = "useCredentials (s\<lparr>sent := sent s @ [?rc]\<rparr>) (dataToken (rdata ?r))"
    from inv have "staleSession ?s2"
      by (auto simp: staleSession_def useCredentials_def on_event_def Let_def)
    then have "request serviceStale i ?s2 usersMeRequest = None"
      using k Suc by (intro below) (simp_all add: usersMeRequest_def)
    then have "fetchUser serviceStale j ?s2 = None" by (simp add: Suc del: request.simps)
    with req k tok show ?thesis by (simp del: request.simps fetchUser.simps add: Let_def)
  qed
qed

lemma stale_request_never_settles:
  "staleSession s \<Longrightarrow> url c \<noteq> ''/api/auth/refresh'' \<Longrightarrow> request serviceStale n s c = None"
proof (induction n arbitrary: s c rule: less_induct)
  case (less n)
  show ?case
  proof (cases n)
    case 0
    then show ?thesis by simp
  next
    case (Suc m)
    let ?c = "runRequestInterceptors (interceptors s) c"
    let ?resp = "\<lparr>status = 401, rdata = NoContent\<rparr>"
    let ?e = "\<lparr>err_response = Some ?resp, err_config = ?c\<rparr>"
    let ?s1 = "s\<lparr>sent := sent s @ [?c]\<rparr>"
    from less.prems(1) obtain rest where "interceptors s = Some (Some ''A'') # rest"
      by (auto simp: staleSession_def)
    then have "authorization ?c = Some ''Bearer A''"
      using oldest_credential_wins [of "''A''" rest c] by simp
    moreover have "url ?c \<noteq> ''/api/auth/refresh''"
      using less.prems(2) by (simp add: url_runRequestInterceptors)
    ultimately have "serviceStale (sent s) ?c = Fail (Some ?resp)"
      by (simp add: serviceStale_def failWith_def)
    then have step: "request serviceStale (Suc m) s c = onRejected serviceStale m ?s1 ?e"
      by (intro request_Suc_Fail) simp_all
    have e: "is401 ?e" by (simp add: is401_def)
    from less.prems(1) have inv1: "staleSession ?s1" by (simp add: staleSession_def)
    then have tok1: "truthy (userRefreshToken ?s1)" by (simp add: staleSession_def)
    show ?thesis
    proof (cases m)
      case 0
      with step Suc show ?thesis by simp
    next
      case (Suc k)
      have "refreshToken serviceStale k ?s1 = None"
        using inv1
      proof (rule stale_refreshToken_never_returns)
        fix i s' and c' :: AxiosRequestConfig
        assume "i < k" "staleSession s'" "url c' \<noteq> ''/api/auth/refresh''"
        then show "request serviceStale i s' c' = None"
          using \<open>n = Suc m\<close> Suc by (intro less.IH) simp_all
      qed
      with step \<open>n = Suc m\<close> Suc e tok1 show ?thesis by (simp del: refreshToken.simps)
    qed
  qed
qed

lemma refreshToken_never_returns_on_stale_credential:
  "truthy (userRefreshToken session0) \<and>
   serviceStale [] (runRequestInterceptors (interceptors session0)
      (refreshRequest (the (userRefreshToken session0)))) =
     ok (TokenRecordD \<lparr>token = ''B'', validUntil = ''t3''\<rparr>) \<and>
   (\<forall>n. refreshToken serviceStale n session0 = None)"
proof -
  have tok: "truthy (userRefreshToken session0)" by code_simp
  have ok: "serviceStale [] (runRequestInterceptors (interceptors session0)
      (refreshRequest (the (userRefreshToken session0)))) =
     ok (TokenRecordD \<lparr>token = ''B'', validUntil = ''t3''\<rparr>)" by code_simp
  have inv: "staleSession session0" by (simp add: staleSession_def session0_def truthy_def)
  have "refreshToken serviceStale n session0 = None" for n
    using inv by (rule stale_refreshToken_never_returns) (rule stale_request_never_settles)
  with tok ok show ?thesis by simp
qed

section \<open>Messages to a pending popup flow\<close>

lemma resolve_fields:
  "length (promises (resolve p pg)) = length (promises pg)"
  "closed (resolve p pg) = closed pg"
  "listeners (resolve p pg) = listeners pg"
  "opened (resolve p pg) = opened pg"
  by (simp_all add: resolve_def)





lemma onMessage_honoured_length:
  "length (promises (onMessage s (baseURL s) d pg l)) = length (promises pg)"
  by (simp add: onMessage_def resolve_fields split: option.splits)



lemma foldl_onMessage_length:
  "length (promises (foldl (onMessage s (baseURL s) d) pg ls)) = length (promises pg)"
  by (induction ls arbitrary: pg) (simp_all add: onMessage_honoured_length)





lemma popupPromise_keeps_pending:
  "pendingInvocation pg p popup \<Longrightarrow> pendingInvocation (snd (popupPromise host s pg path)) p popup"
  by (cases host) (auto simp: popupPromise_def pendingInvocation_def Let_def nth_append)




section \<open>The query of the popup's URL\<close>

lemma update_fresh: "k \<notin> fst ` set al \<Longrightarrow> AList.update k v al = al @ [(k, v)]"
  by (induction al) auto

lemma foldl_update_distinct:
  "distinct (map fst (acc @ es)) \<Longrightarrow>
   foldl (\<lambda>obj (k, v). AList.update k v obj) acc es = acc @ es"
proof (induction es arbitrary: acc)
  case Nil
  then show ?case by simp
next
  case (Cons e es)
  obtain k v where e: "e = (k, v)" by (cases e)
  from Cons.prems e have fresh: "k \<notin> fst ` set acc" by auto
  from Cons.prems e have "distinct (map fst ((acc @ [(k, v)]) @ es))" by simp
  from Cons.IH [OF this] fresh e show ?case by (simp add: update_fresh)
qed

text \<open>On the entries of an object, whose names differ, \<open>Object.fromEntries\<close> is the identity.\<close>

lemma fromEntries_distinct: "distinct (map fst es) \<Longrightarrow> fromEntries es = es"
  using foldl_update_distinct [of "[]" es] by (simp add: fromEntries_def)

lemma set_stringEntries: "set (stringEntries data) = {(k, x). (k, JString x) \<in> set data}"
  by (induction data)
    (auto simp: stringEntries_def List.map_filter_simps typeof_def split: jsval.splits)

lemma fst_stringEntries: "fst ` set (stringEntries data) \<subseteq> fst ` set data"
  by (force simp: set_stringEntries)

lemma distinct_stringEntries:
  "distinct (map fst data) \<Longrightarrow> distinct (map fst (stringEntries data))"
proof (induction data)
  case Nil
  then show ?case by (simp add: stringEntries_def List.map_filter_simps)
next
  case (Cons e data)
  obtain k v where e: "e = (k, v)" by (cases e)
  from Cons.prems e have k: "k \<notin> fst ` set data" by auto
  then have k': "k \<notin> fst ` set (stringEntries data)" using fst_stringEntries by blast
  from Cons have d: "distinct (map fst (stringEntries data))" by simp
  have "stringEntries (e # data) = stringEntries data \<or>
        (\<exists>x. stringEntries (e # data) = (k, x) # stringEntries data)"
    by (cases v) (simp_all add: e stringEntries_def List.map_filter_simps typeof_def)
  with d k' show ?case by auto
qed

lemma getPath_distinct:
  "distinct (map fst data) \<Longrightarrow> getPath toString u data = u @ ''?'' @ toString (stringEntries data)"
  by (simp add: getPath_def Let_def fromEntries_distinct distinct_stringEntries)

lemma set_update_distinct:
  "distinct (map fst al) \<Longrightarrow>
   set (AList.update k v al) = {(k', v'). k' \<noteq> k \<and> (k', v') \<in> set al} \<union> {(k, v)}"
  by (induction al) (auto simp: image_iff)

lemma set_withRoomId:
  "distinct (map fst data) \<Longrightarrow>
   set (stringEntries (withRoomId data r)) =
     {(k, x). k \<noteq> ''roomId'' \<and> (k, JString x) \<in> set data} \<union>
     {(k, x). k = ''roomId'' \<and> r = JString x}"
  by (auto simp: set_stringEntries withRoomId_def set_update_distinct)

text \<open>
  Claim C10. The url that \<open>signTransaction\<close> opens is the base URL, the path
  \<open>/transaction/send\<close>, a question mark and the serialisation of a list of
  parameters whose names differ and whose entries are exactly: the entries of the
  transaction with a string value (under a name other than \<open>roomId\<close>, which the
  argument \<open>roomId\<close> replaces), and \<open>roomId\<close> when the argument is a string. For
  \<open>createWallet\<close> the path is \<open>/auth\<close> and the parameters are \<open>roomId\<close> when it
  is a string. The transaction is an object: the names of its entries differ.
\<close>

theorem popup_query_has_the_string_entries:
  assumes "distinct (map fst data)"
  shows "(\<exists>q. opened (snd (signTransaction toString (Returns popup) s pg r data)) =
               opened pg @ [baseURL s @ ''/transaction/send'' @ ''?'' @ toString q] \<and>
             distinct (map fst q) \<and>
             set q = {(k, x). k \<noteq> ''roomId'' \<and> (k, JString x) \<in> set data} \<union>
                     {(k, x). k = ''roomId'' \<and> r = JString x}) \<and>
         (\<exists>q. opened (snd (createWallet toString (Returns popup) s pg r)) =
               opened pg @ [baseURL s @ ''/auth'' @ ''?'' @ toString q] \<and>
             distinct (map fst q) \<and>
             set q = {(k, x). k = ''roomId'' \<and> r = JString x})"
proof -
  let ?d = "withRoomId data r"
  have d: "distinct (map fst ?d)" using assms by (simp add: withRoomId_def distinct_update)
  have 1: "opened (snd (signTransaction toString (Returns popup) s pg r data)) =
             opened pg @ [baseURL s @ ''/transaction/send'' @ ''?'' @ toString (stringEntries ?d)]"
    by (simp add: signTransaction_def popupPromise_def Let_def getPath_distinct [OF d])
  have 2: "distinct (map fst (stringEntries ?d))" using d by (rule distinct_stringEntries)
  have 3: "set (stringEntries ?d) = {(k, x). k \<noteq> ''roomId'' \<and> (k, JString x) \<in> set data} \<union>
                     {(k, x). k = ''roomId'' \<and> r = JString x}"
    using assms by (rule set_withRoomId)
  let ?w = "[(''roomId'', r)]"
  have dw: "distinct (map fst ?w)" by simp
  have 4: "opened (snd (createWallet toString (Returns popup) s pg r)) =
             opened pg @ [baseURL s @ ''/auth'' @ ''?'' @ toString (stringEntries ?w)]"
    by (simp add: createWallet_def popupPromise_def Let_def getPath_distinct [OF dw])
  have 5: "distinct (map fst (stringEntries ?w))" using dw by (rule distinct_stringEntries)
  have 6: "set (stringEntries ?w) = {(k, x). k = ''roomId'' \<and> r = JString x}"
    by (auto simp: set_stringEntries)
  from 1 2 3 4 5 6 show ?thesis by blast
qed

text \<open>A transaction whose \<open>value\<close> is a number: the query has \<open>to\<close>, \<open>data\<close>, \<open>roomId\<close>.\<close>

theorem popup_query_has_the_string_entries_witness:
  "distinct (map fst transaction0) \<and>
   opened (snd (signTransaction plainQuery (Returns (Some 5)) session0 page0 (JString ''ab12'') transaction0)) =
     [''https://wallet.example/transaction/send?to=0x1&data=0x&roomId=ab12''] \<and>
   (\<exists>q. opened (snd (signTransaction plainQuery (Returns (Some 5)) session0 page0 (JString ''ab12'') transaction0)) =
               opened page0 @ [baseURL session0 @ ''/transaction/send'' @ ''?'' @ plainQuery q] \<and>
             distinct (map fst q) \<and>
             set q = {(k, x). k \<noteq> ''roomId'' \<and> (k, JString x) \<in> set transaction0} \<union>
                     {(k, x). k = ''roomId'' \<and> JString ''ab12'' = JString x}) \<and>
   (\<exists>q. opened (snd (createWallet plainQuery (Returns (Some 5)) session0 page0 (JString ''ab12''))) =
               opened page0 @ [baseURL session0 @ ''/auth'' @ ''?'' @ plainQuery q] \<and>
             distinct (map fst q) \<and>
             set q = {(k, x). k = ''roomId'' \<and> JString ''ab12'' = JString x})"
proof -
  have h: "distinct (map fst transaction0)" by code_simp
  have e: "opened (snd (signTransaction plainQuery (Returns (Some 5)) session0 page0 (JString ''ab12'') transaction0)) =
     [''https://wallet.example/transaction/send?to=0x1&data=0x&roomId=ab12'']"
    by code_simp
  from popup_query_has_the_string_entries [OF h, of plainQuery "Some 5" session0 page0 "JString ''ab12''"] h e
  show ?thesis by blast
qed

section \<open>Fuel\<close>

text \<open>
  Fuel only decides whether a result is reached: a result reached with some fuel is the
  result with any more.
\<close>

lemma more_fuel_step:
  "(\<forall>s c r. request T n s c = Some r \<longrightarrow> request T (Suc n) s c = Some r) \<and>
   (\<forall>s e r. onRejected T n s e = Some r \<longrightarrow> onRejected T (Suc n) s e = Some r) \<and>
   (\<forall>s r. refreshToken T n s = Some r \<longrightarrow> refreshToken T (Suc n) s = Some r) \<and>
   (\<forall>s r. fetchUser T n s = Some r \<longrightarrow> fetchUser T (Suc n) s = Some r)"
proof (induction n)
  case 0
  show ?case by simp
next
  case (Suc n)
  then have req: "\<And>s c r. request T n s c = Some r \<Longrightarrow> request T (Suc n) s c = Some r"
    and rej: "\<And>s e r. onRejected T n s e = Some r \<Longrightarrow> onRejected T (Suc n) s e = Some r"
    and ref: "\<And>s r. refreshToken T n s = Some r \<Longrightarrow> refreshToken T (Suc n) s = Some r"
    and fet: "\<And>s r. fetchUser T n s = Some r \<Longrightarrow> fetchUser T (Suc n) s = Some r"
    by blast+
  have 1: "request T (Suc (Suc n)) s c = Some r" if run: "request T (Suc n) s c = Some r" for s c r
  proof (cases "T (sent s) (runRequestInterceptors (interceptors s) c)")
    case (Ok resp)
    with run show ?thesis by (simp add: Let_def)
  next
    case (Fail ro)
    let ?c = "runRequestInterceptors (interceptors s) c"
    from run Fail
    have "onRejected T n (s\<lparr>sent := sent s @ [?c]\<rparr>) \<lparr>err_response = ro, err_config = ?c\<rparr> = Some r"
      by (simp add: Let_def)
    then have "onRejected T (Suc n) (s\<lparr>sent := sent s @ [?c]\<rparr>) \<lparr>err_response = ro, err_config = ?c\<rparr> = Some r"
      by (rule rej)
    with Fail show ?thesis by (simp del: onRejected.simps add: Let_def)
  qed
  have 2: "onRejected T (Suc (Suc n)) s e = Some r" if run: "onRejected T (Suc n) s e = Some r" for s e r
  proof (cases "is401 e \<and> truthy (userRefreshToken s)")
    case False
    with run show ?thesis by auto
  next
    case True
    show ?thesis
    proof (cases "refreshToken T n s")
      case None
      with run True show ?thesis by simp
    next
      case (Some a)
      obtain x s1 where a: "a = (x, s1)" by (cases a)
      from Some a have up: "refreshToken T (Suc n) s = Some (x, s1)" using ref by simp
      show ?thesis
      proof (cases x)
        case (Rejected err)
        from run True Some a Rejected have "r = (Fulfilled (ErrV e), s1\<lparr>console := console s1 @ [err]\<rparr>)"
          by simp
        with True up Rejected show ?thesis
          by (simp del: refreshToken.simps request.simps)
      next
        case (Fulfilled d)
        from True have e: "is401 e" and tok: "truthy (userRefreshToken s)" by simp_all
        from Some a Fulfilled have low: "refreshToken T n s = Some (Fulfilled d, s1)" by simp
        from up Fulfilled have high: "refreshToken T (Suc n) s = Some (Fulfilled d, s1)"
          by (simp only:)
        have "onRejected T (Suc n) s e = request T n s1 (err_config e)"
          using e tok low by (rule onRejected_retries_through_request)
        with run have "request T n s1 (err_config e) = Some r" by (simp only:)
        then have "request T (Suc n) s1 (err_config e) = Some r" by (rule req)
        moreover have "onRejected T (Suc (Suc n)) s e = request T (Suc n) s1 (err_config e)"
          using e tok high by (rule onRejected_retries_through_request)
        ultimately show ?thesis by (simp only:)
      qed
    qed
  qed
  have 3: "refreshToken T (Suc (Suc n)) s = Some r" if run: "refreshToken T (Suc n) s = Some r" for s r
  proof (cases "truthy (userRefreshToken s)")
    case False
    with run show ?thesis by simp
  next
    case True
    let ?req = "refreshRequest (the (userRefreshToken s))"
    show ?thesis
    proof (cases "request T n s ?req")
      case None
      with run True show ?thesis by simp
    next
      case (Some a)
      obtain x s1 where a: "a = (x, s1)" by (cases a)
      from Some a have up: "request T (Suc n) s ?req = Some (x, s1)" using req by simp
      from Some a obtain v where x: "x = Fulfilled v" using request_fulfils by blast
      show ?thesis
      proof (cases v)
        case (ErrV e)
        from run True Some a x ErrV have "r = (Rejected (Error ''Refresh token failed''), s1)"
          by simp
        with True up x ErrV show ?thesis
          by (simp del: request.simps fetchUser.simps)
      next
        case (RespV resp)
        let ?s2 = "useCredentials s1 (dataToken (rdata resp))"
        show ?thesis
        proof (cases "fetchUser T n ?s2")
          case None
          with run True Some a x RespV show ?thesis by (simp add: Let_def)
        next
          case (Some b)
          obtain y s3 where b: "b = (y, s3)" by (cases b)
          from Some b have upf: "fetchUser T (Suc n) ?s2 = Some (y, s3)" using fet by simp
          from Some b obtain u where y: "y = Fulfilled u" using fetchUser_fulfils by blast
          from run True \<open>request T n s ?req = Some a\<close> a x RespV Some b y
          have "r = (Fulfilled (rdata resp), s3)" by (simp add: Let_def)
          with True up x RespV upf y show ?thesis
            by (simp del: request.simps fetchUser.simps add: Let_def)
        qed
      qed
    qed
  qed
  have 4: "fetchUser T (Suc (Suc n)) s = Some r" if run: "fetchUser T (Suc n) s = Some r" for s r
  proof (cases "request T n s usersMeRequest")
    case None
    with run show ?thesis by simp
  next
    case (Some a)
    obtain x s1 where a: "a = (x, s1)" by (cases a)
    from Some a have up: "request T (Suc n) s usersMeRequest = Some (x, s1)" using req by simp
    from Some a obtain v where x: "x = Fulfilled v" using request_fulfils by blast
    from run Some a x have "r = (Fulfilled (data_of v), s1\<lparr>user_field := data_of v\<rparr>)"
      by (simp add: Let_def)
    with up x show ?thesis by (simp del: request.simps add: Let_def)
  qed
  from 1 2 3 4 show ?case by blast
qed

lemma request_more_fuel:
  assumes "request T n s c = Some r" and "n \<le> m"
  shows "request T m s c = Some r"
  using assms(2)
proof (induction rule: dec_induct)
  case base
  show ?case by (rule assms(1))
next
  case (step k)
  then show ?case using more_fuel_step by blast
qed

lemma refreshToken_more_fuel:
  assumes "refreshToken T n s = Some r" and "n \<le> m"
  shows "refreshToken T m s = Some r"
  using assms(2)
proof (induction rule: dec_induct)
  case base
  show ?case by (rule assms(1))
next
  case (step k)
  then show ?case using more_fuel_step by blast
qed

lemma fetchUser_more_fuel:
  assumes "fetchUser T n s = Some r" and "n \<le> m"
  shows "fetchUser T m s = Some r"
  using assms(2)
proof (induction rule: dec_induct)
  case base
  show ?case by (rule assms(1))
next
  case (step k)
  then show ?case using more_fuel_step by blast
qed

text \<open>
  When the request to the refresh endpoint is fulfilled with a response and the fetch of
  the user settles, \<open>refreshToken()\<close> returns.
\<close>

lemma refreshToken_succeeds:
  assumes "truthy (userRefreshToken s)"
    and "request T (Suc m) s (refreshRequest (the (userRefreshToken s))) = Some (Fulfilled (RespV r), s1)"
    and "request T m (useCredentials s1 (dataToken (rdata r))) usersMeRequest = Some (Fulfilled v, s2)"
  shows "refreshToken T (Suc (Suc m)) s = Some (Fulfilled (rdata r), s2\<lparr>user_field := data_of v\<rparr>)"
  using assms by (simp del: request.simps add: Let_def)

text \<open>The logged-in client of the scenarios is reached from a new client.\<close>

lemma session0_reached:
  "Option.bind (authWithDiscord service 1 client0 credentials0) (\<lambda>(r1, s1).
     map_option (\<lambda>(r2, s2). s2\<lparr>sent := []\<rparr>) (fetchUser service 2 s1)) = Some session0"
  by code_simp

end
